theory Spec2Isabelle
  imports Main "HOL-Library.Word"
begin

section \<open>The weather lookup service: data\<close>

text \<open>
  The service is one Go file. Its handler looks a location up in a Redis cache and, on a
  miss, asks the Visual Crossing API, stores the temperature under every alias the reply
  names and answers with the temperature. The handler is modelled as a function on an
  explicit state (the cache contents, the commands sent to Redis, the HTTP requests sent
  to the provider, the log) and an environment that fixes how the collaborators outside
  the repository answer.
\<close>

text \<open>
  A \<open>float32\<close> is its 32 bits. The model never computes with it: it is stored, copied
  and handed to the formatter.
\<close>

type_synonym float32 = "32 word"

text \<open>\<open>time.Duration\<close> counts nanoseconds.\<close>

type_synonym Duration = int

definition Second :: Duration where
  "Second = 1000 * (1000 * (1000 * 1))"

definition Minute :: Duration where
  "Minute = 60 * Second"

definition Hour :: Duration where
  "Hour = 60 * Minute"

text \<open>
  Go's \<open>error\<close> values: the two package-level sentinels of the service, the sentinel
  \<open>redis.Nil\<close> of the client library (compared by identity in the handler), and any
  other error with its message.
\<close>

datatype go_error = ErrAPIConnect | ErrAPIResponse | redis_Nil | Error string

fun Error_text :: "go_error \<Rightarrow> string" where
  "Error_text ErrAPIConnect = ''failed to connect to the Visual Crossing API''"
| "Error_text ErrAPIResponse =
     ''something happened with the response from the Visual Crossing API''"
| "Error_text redis_Nil = ''redis: nil''"
| "Error_text (Error msg) = msg"

record Weather =
  Locations :: "string list"
  Temp :: float32

text \<open>The anonymous struct of the field \<open>CurrentConditions\<close>.\<close>

record Conditions =
  Temp :: float32
  Stations :: "string list"

record APIResponse =
  Address :: string
  ResolvedAddress :: string
  CurrentConditions :: Conditions

text \<open>\<open>var apiResponse APIResponse\<close>: every field has its zero value.\<close>

definition zero_APIResponse :: APIResponse where
  "zero_APIResponse =
     \<lparr>Address = [], ResolvedAddress = [],
      CurrentConditions = \<lparr>Conditions.Temp = 0, Stations = []\<rparr>\<rparr>"

subsection \<open>The collaborators\<close>

text \<open>
  What the provider's HTTP reply carries: the status code and the body, the body being
  what \<open>io.ReadAll\<close> makes of it (the bytes, or the error of the read).
\<close>

record http_Response =
  StatusCode :: int
  Body :: "go_error + string"

text \<open>A cached entry: the stored string and the expiration it was written with.\<close>

record redis_entry =
  val :: string
  expiration :: Duration

datatype redis_cmd = GET string | SET string string Duration

text \<open>
  The environment: the process environment, the provider's answer to a URL, the standard
  library's JSON decoder (it fills the struct it is given and may report an error) and
  float formatter, and the failures of the Redis connection (the message of the failure
  of the \<open>n\<close>-th command sent on the client, if that command fails).
  \<open>strconv_FormatFloat\<close> takes the \<open>float32\<close> itself: the widening \<open>float64(f)\<close> is
  exact, and with bit size 32 the formatter reads its argument back as that
  \<open>float32\<close>.
\<close>

record env =
  os_Getenv :: "string \<Rightarrow> string"
  http_Get :: "string \<Rightarrow> go_error + http_Response"
  json_Unmarshal :: "string \<Rightarrow> APIResponse \<Rightarrow> APIResponse \<times> go_error option"
  strconv_FormatFloat :: "float32 \<Rightarrow> char \<Rightarrow> int \<Rightarrow> int \<Rightarrow> string"
  redis_fault :: "nat \<Rightarrow> string option"

record world =
  redis_db :: "string \<rightharpoonup> redis_entry"
  redis_cmds :: "redis_cmd list"
  http_reqs :: "string list"
  log_out :: "string list"

definition log_Print :: "world \<Rightarrow> go_error \<Rightarrow> world" where
  "log_Print s err = s\<lparr>log_out := log_out s @ [Error_text err]\<rparr>"

text \<open>
  Modelled from the spec: the cache store is the go-redis client, a library outside the
  repository. Its interface is \<open>get(key) -> value | NotFound | Error\<close> and
  \<open>set(key, value, ttl) -> Ok | Error\<close>: a get that reaches the store answers the
  stored string or \<open>redis.Nil\<close>; a set that reaches the store overwrites the entry of
  the key with the value and the expiration; a command that fails changes nothing.
  Every command is recorded in \<open>redis_cmds\<close>.
\<close>

definition redis_Get :: "env \<Rightarrow> world \<Rightarrow> string \<Rightarrow> world \<times> (go_error + string)" where
  "redis_Get e s key =
     (let s' = s\<lparr>redis_cmds := redis_cmds s @ [GET key]\<rparr> in
      case redis_fault e (length (redis_cmds s)) of
        Some msg \<Rightarrow> (s', Inl (Error msg))
      | None \<Rightarrow>
          (case redis_db s key of
             None \<Rightarrow> (s', Inl redis_Nil)
           | Some ent \<Rightarrow> (s', Inr (val ent))))"

definition redis_Set ::
  "env \<Rightarrow> world \<Rightarrow> string \<Rightarrow> string \<Rightarrow> Duration \<Rightarrow> world \<times> go_error option" where
  "redis_Set e s key v ttl =
     (let s' = s\<lparr>redis_cmds := redis_cmds s @ [SET key v ttl]\<rparr> in
      case redis_fault e (length (redis_cmds s)) of
        Some msg \<Rightarrow> (s', Some (Error msg))
      | None \<Rightarrow>
          (s'\<lparr>redis_db := (redis_db s)(key \<mapsto> \<lparr>val = v, expiration = ttl\<rparr>)\<rparr>, None))"

text \<open>
  The request and the response writer of \<open>net/http\<close>: the query parameters of the URL
  (\<open>Get\<close> answers the first value of a key, or the empty string), and the status and
  bytes written so far (the first \<open>WriteHeader\<close> fixes the status).
\<close>

record Request =
  Query :: "string \<rightharpoonup> string list"

definition Values_Get :: "(string \<rightharpoonup> string list) \<Rightarrow> string \<Rightarrow> string" where
  "Values_Get vs key = (case vs key of None \<Rightarrow> [] | Some [] \<Rightarrow> [] | Some (v # _) \<Rightarrow> v)"

record ResponseWriter =
  status :: "int option"
  written :: string

definition WriteHeader :: "ResponseWriter \<Rightarrow> int \<Rightarrow> ResponseWriter" where
  "WriteHeader w c = (case status w of None \<Rightarrow> w\<lparr>status := Some c\<rparr> | Some _ \<Rightarrow> w)"

definition Write :: "ResponseWriter \<Rightarrow> string \<Rightarrow> ResponseWriter" where
  "Write w bs =
     (let w' = WriteHeader w 200 in w'\<lparr>written := written w' @ bs\<rparr>)"

definition StatusOK :: int where
  "StatusOK = 200"

definition StatusBadRequest :: int where
  "StatusBadRequest = 400"

definition StatusInternalServerError :: int where
  "StatusInternalServerError = 500"

section \<open>The service\<close>

definition convertFloat32ToString :: "env \<Rightarrow> float32 \<Rightarrow> string" where
  "convertFloat32ToString e f = strconv_FormatFloat e f (CHR ''f'') (- 1) 32"

text \<open>
  \<open>Handle\<close>, first half: the slice of locations. It is made with \<open>2 + len(stations)\<close>
  empty strings and filled by index. Every index the code writes is below that length
  (\<open>locations_indices_in_range\<close>), so no assignment panics.
\<close>

definition fill_stations :: "string list \<Rightarrow> string list \<Rightarrow> string list" where
  "fill_stations stations locations =
     fold (\<lambda>i locs. locs[2 + i := stations ! i]) [0..<length stations] locations"

definition make_locations :: "APIResponse \<Rightarrow> string list" where
  "make_locations r =
     (let stations = Stations (CurrentConditions r);
          locations = replicate (2 + length stations) [];
          locations = locations[0 := Address r];
          locations = locations[1 := ResolvedAddress r]
      in if length stations > 0 then fill_stations stations locations else locations)"

text \<open>
  \<open>Handle\<close>, second half: one \<open>Set\<close> per location, in order, stopping at the first
  error.
\<close>

fun set_locations :: "env \<Rightarrow> world \<Rightarrow> string list \<Rightarrow> string \<Rightarrow> world \<times> go_error option" where
  "set_locations e s [] v = (s, None)"
| "set_locations e s (key # keys) v =
     (case redis_Set e s key v Hour of
        (s', Some err) \<Rightarrow> (s', Some err)
      | (s', None) \<Rightarrow> set_locations e s' keys v)"

definition Handle :: "env \<Rightarrow> world \<Rightarrow> APIResponse \<Rightarrow> world \<times> (go_error + Weather)" where
  "Handle e s r =
     (let locations = make_locations r;
          weather = \<lparr>Locations = locations, Temp = Conditions.Temp (CurrentConditions r)\<rparr>
      in case set_locations e s locations (convertFloat32ToString e (Weather.Temp weather)) of
           (s', Some err) \<Rightarrow> (s', Inl err)
         | (s', None) \<Rightarrow> (s', Inr weather))"

definition api_url :: "env \<Rightarrow> string \<Rightarrow> string" where
  "api_url e location =
     ''https://weather.visualcrossing.com/VisualCrossingWebServices/rest/services/timeline/''
     @ location @ ''?unitGroup=uk&key='' @ os_Getenv e ''VISUAL_CROSSING_API_KEY''
     @ ''&contentType=json''"

definition callWeatherAPI :: "env \<Rightarrow> world \<Rightarrow> string \<Rightarrow> world \<times> (go_error + APIResponse)" where
  "callWeatherAPI e s location =
     (let s1 = s\<lparr>http_reqs := http_reqs s @ [api_url e location]\<rparr> in
      case http_Get e (api_url e location) of
        Inl err \<Rightarrow> (s1, Inl ErrAPIConnect)
      | Inr response \<Rightarrow>
          (case Body response of
             Inl err \<Rightarrow> (log_Print s1 err, Inl ErrAPIResponse)
           | Inr body \<Rightarrow>
               (case json_Unmarshal e body zero_APIResponse of
                  (apiResponse, Some err) \<Rightarrow> (log_Print s1 err, Inl ErrAPIResponse)
                | (apiResponse, None) \<Rightarrow> (s1, Inr apiResponse))))"

text \<open>
  Every error exit of the handler logs the error and answers 500 with its text. The
  handler takes the Redis client from the request's context, where \<open>main\<close> puts it for
  every request; the model passes the state of that client in \<open>world\<close>. The deferred
  \<open>Body.Close\<close> of \<open>callWeatherAPI\<close> has no effect the model records.
\<close>

definition fail_with :: "world \<Rightarrow> ResponseWriter \<Rightarrow> go_error \<Rightarrow> world \<times> ResponseWriter" where
  "fail_with s w err =
     (log_Print s err, Write (WriteHeader w StatusInternalServerError) (Error_text err))"

definition weatherHandler :: "env \<Rightarrow> world \<Rightarrow> ResponseWriter \<Rightarrow> Request \<Rightarrow> world \<times> ResponseWriter" where
  "weatherHandler e s w r =
     (let location = Values_Get (Query r) ''location'' in
      if length location = 0
      then (s, Write (WriteHeader w StatusBadRequest) ''missing location query parameter'')
      else
        (case redis_Get e s location of
           (s1, Inl err) \<Rightarrow>
             (if err = redis_Nil
              then
                (case callWeatherAPI e s1 location of
                   (s2, Inl err) \<Rightarrow> fail_with s2 w err
                 | (s2, Inr apiResponse) \<Rightarrow>
                     (case Handle e s2 apiResponse of
                        (s3, Inl err) \<Rightarrow> fail_with s3 w err
                      | (s3, Inr weather) \<Rightarrow>
                          (s3, Write (WriteHeader w StatusOK)
                                 (convertFloat32ToString e (Weather.Temp weather)))))
              else fail_with s1 w err)
         | (s1, Inr v) \<Rightarrow> (s1, Write (WriteHeader w StatusOK) v)))"

section \<open>The JSON decoder\<close>

text \<open>
  \<open>json.Unmarshal\<close> belongs to the standard library. This section describes what it
  does with the struct \<open>APIResponse\<close>, so that a statement about what a body decodes to
  can be made. Three things stay parameters, gathered in \<open>json_lib\<close>: the grammar (the
  JSON value a text denotes, if it is valid JSON), the case folding of names, and the
  conversion of a number literal to a \<open>float32\<close> (none when it is out of range); the
  wording of the decoder's errors is a parameter too.

  The decoder checks the grammar first and touches nothing when the text is not valid
  JSON. Then it stores the value into the struct it was given:
  \<^item> \<open>null\<close> stores nothing and is no error, except into a slice, which it empties;
  \<^item> an object is read key by key, in order; a key names the field whose name it equals
    or, if there is none, the first field with the same folded name; a key that names no
    field is skipped; a field no key names keeps what it had;
  \<^item> a string goes into a string field, a number into the float field when it converts,
    an array of strings into the slice, an object into the nested struct;
  \<^item> a value of any other kind leaves its target as it was and is a type error; the
    decoder carries on and reports the first type error at the end.
  An array is decoded element by element into the slots of the slice, and a slot keeps
  what an earlier array for the same key left there (which is what a \<open>null\<close> element
  then yields); the state of the decoder carries the slots beyond the length of the
  slice for that. An empty array makes a fresh empty slice.
\<close>

datatype json =
  JNull | JBool bool | JNumber string | JString string
  | JArray "json list" | JObject "(string \<times> json) list"

datatype json_error = SyntaxError | UnmarshalTypeError string string

record json_lib =
  json_syntax :: "string \<Rightarrow> json option"
  foldName :: "string \<Rightarrow> string"
  ParseFloat :: "string \<Rightarrow> float32 option"
  json_error_text :: "json_error \<Rightarrow> string"



definition find_field :: "json_lib \<Rightarrow> string list \<Rightarrow> string \<Rightarrow> string option" where
  "find_field lib names key =
     (if key \<in> set names then Some key
      else find (\<lambda>name. foldName lib name = foldName lib key) names)"












section \<open>Vocabulary of the proofs\<close>

text \<open>
  The entry a write of the loop leaves under a key, and the state after the loop has
  sent a \<open>SET\<close> for each key of \<open>sent\<close>, of which those for \<open>stored\<close> reached the
  store.
\<close>

definition cached :: "string \<Rightarrow> redis_entry" where
  "cached v = \<lparr>val = v, expiration = Hour\<rparr>"

definition after_sets :: "world \<Rightarrow> string list \<Rightarrow> string list \<Rightarrow> string \<Rightarrow> world" where
  "after_sets s sent stored v =
     s\<lparr>redis_cmds := redis_cmds s @ map (\<lambda>k. SET k v Hour) sent,
       redis_db := (\<lambda>k. if k \<in> set stored then Some (cached v) else redis_db s k)\<rparr>"

text \<open>The state in which a lookup that missed and got a reply reaches the write loop.\<close>

definition at_writes :: "env \<Rightarrow> world \<Rightarrow> string \<Rightarrow> world" where
  "at_writes e s location =
     s\<lparr>redis_cmds := redis_cmds s @ [GET location],
       http_reqs := http_reqs s @ [api_url e location]\<rparr>"

text \<open>
  A field is absent from an object when no key names it; a field of the nested struct is
  absent when every value stored into \<open>currentConditions\<close> is an object without it, or
  no object at all.
\<close>

definition absent :: "json_lib \<Rightarrow> string list \<Rightarrow> string \<Rightarrow> (string \<times> json) list \<Rightarrow> bool" where
  "absent lib names name kvs =
     list_all (\<lambda>(key, v). find_field lib names key \<noteq> Some name) kvs"


subsection \<open>Sample runs\<close>

text \<open>
  A reply of the provider for London, the struct the decoder makes of it, and an
  environment that decodes and formats as the standard library does on the few inputs
  the sample runs need: the London reply, the empty object, the temperatures 7.5
  (bits \<open>0x40F00000\<close>) and 0.
\<close>

definition London_body :: string where
  "London_body =
     ''{\"address\":\"London\",\"resolvedAddress\":\"London, England, United Kingdom\",''
     @ ''\"currentConditions\":{\"temp\":7.5,\"stations\":[\"EGLC\",\"EGLL\"]}}''"

definition London_reply :: APIResponse where
  "London_reply =
     \<lparr>Address = ''London'', ResolvedAddress = ''London, England, United Kingdom'',
      CurrentConditions = \<lparr>Conditions.Temp = 0x40F00000, Stations = [''EGLC'', ''EGLL'']\<rparr>\<rparr>"

definition sample_Unmarshal :: "string \<Rightarrow> APIResponse \<Rightarrow> APIResponse \<times> go_error option" where
  "sample_Unmarshal body r =
     (if body = London_body then (London_reply, None)
      else if body = ''{}'' then (r, None)
      else (r, Some (Error ''invalid character'')))"

definition sample_FormatFloat :: "float32 \<Rightarrow> char \<Rightarrow> int \<Rightarrow> int \<Rightarrow> string" where
  "sample_FormatFloat f fmt prec bitSize =
     (if f = 0x40F00000 then ''7.5'' else if f = 0 then ''0'' else ''NaN'')"

definition sample_env :: "(go_error + http_Response) \<Rightarrow> (nat \<Rightarrow> string option) \<Rightarrow> env" where
  "sample_env reply faults =
     \<lparr>os_Getenv = (\<lambda>name. ''KEY''), http_Get = (\<lambda>url. reply),
      json_Unmarshal = sample_Unmarshal, strconv_FormatFloat = sample_FormatFloat,
      redis_fault = faults\<rparr>"

definition replies :: "int \<Rightarrow> string \<Rightarrow> go_error + http_Response" where
  "replies c body = Inr \<lparr>StatusCode = c, Body = Inr body\<rparr>"

definition empty_world :: world where
  "empty_world = \<lparr>redis_db = Map.empty, redis_cmds = [], http_reqs = [], log_out = []\<rparr>"

definition new_writer :: ResponseWriter where
  "new_writer = \<lparr>status = None, written = []\<rparr>"

definition request_for :: "string \<Rightarrow> Request" where
  "request_for location = \<lparr>Query = [''location'' \<mapsto> [location]]\<rparr>"







lemmas sample_defs =
  sample_env_def sample_Unmarshal_def sample_FormatFloat_def replies_def empty_world_def
  new_writer_def request_for_def London_body_def London_reply_def Values_Get_def
  api_url_def zero_APIResponse_def convertFloat32ToString_def WriteHeader_def Write_def
  StatusOK_def StatusBadRequest_def StatusInternalServerError_def Hour_def Minute_def
  Second_def

section \<open>The slice of locations\<close>

lemma fill_stations_prefix:
  assumes "length locations = 2 + length stations" "m \<le> length stations"
  shows "fold (\<lambda>i locs. locs[2 + i := stations ! i]) [0..<m] locations
         = take 2 locations @ take m stations @ drop (2 + m) locations"
  using assms(2)
proof (induction m)
  case 0
  then show ?case by simp
next
  case (Suc m)
  then have m: "m < length stations" by simp
  have len: "length (take 2 locations) = 2" using assms(1) by simp
  have d: "drop (Suc (Suc m)) locations
           = locations ! Suc (Suc m) # drop (Suc (Suc (Suc m))) locations"
    using assms(1) m by (simp add: Cons_nth_drop_Suc)
  show ?case
    using Suc m len d
    by (simp add: list_update_append take_Suc_conv_app_nth)
qed

lemma fill_stations_eq:
  "length locations = 2 + length stations \<Longrightarrow>
   fill_stations stations locations = take 2 locations @ stations"
  using fill_stations_prefix [of locations stations "length stations"]
  by (simp add: fill_stations_def)

lemma make_locations_eq:
  "make_locations r = Address r # ResolvedAddress r # Stations (CurrentConditions r)"
  by (cases "Stations (CurrentConditions r)")
     (simp_all add: make_locations_def Let_def fill_stations_eq)

lemma locations_indices_in_range:
  "0 < length (replicate (2 + length stations) ([]::string)) \<and>
   1 < length (replicate (2 + length stations) ([]::string)) \<and>
   (\<forall>i < length stations. 2 + i < length (replicate (2 + length stations) ([]::string)))"
  by simp

section \<open>The write loop\<close>

lemma redis_Set_ok:
  "redis_fault e (length (redis_cmds s)) = None \<Longrightarrow>
   redis_Set e s key v Hour = (after_sets s [key] [key] v, None)"
  by (auto simp: redis_Set_def after_sets_def cached_def Let_def fun_eq_iff)

lemma redis_Set_fail:
  "redis_fault e (length (redis_cmds s)) = Some msg \<Longrightarrow>
   redis_Set e s key v Hour = (after_sets s [key] [] v, Some (Error msg))"
  by (simp add: redis_Set_def after_sets_def Let_def)

lemma after_sets_after_sets:
  "after_sets (after_sets s [key] [key] v) sent stored v
   = after_sets s (key # sent) (key # stored) v"
  by (auto simp: after_sets_def fun_eq_iff)

lemma length_cmds_after_sets:
  "length (redis_cmds (after_sets s sent stored v)) = length (redis_cmds s) + length sent"
  by (simp add: after_sets_def)

lemma set_locations_ok:
  "(\<forall>j < length keys. redis_fault e (length (redis_cmds s) + j) = None) \<Longrightarrow>
   set_locations e s keys v = (after_sets s keys keys v, None)"
proof (induction keys arbitrary: s)
  case Nil
  show ?case by (simp add: after_sets_def)
next
  case (Cons key keys)
  from Cons.prems have here: "redis_fault e (length (redis_cmds s)) = None"
    by force
  let ?s1 = "after_sets s [key] [key] v"
  have rest: "\<forall>j < length keys. redis_fault e (length (redis_cmds ?s1) + j) = None"
  proof (intro allI impI)
    fix j assume "j < length keys"
    with Cons.prems have "redis_fault e (length (redis_cmds s) + Suc j) = None"
      by (metis Suc_less_eq length_Cons)
    then show "redis_fault e (length (redis_cmds ?s1) + j) = None"
      by (simp add: length_cmds_after_sets)
  qed
  show ?case
    by (simp add: redis_Set_ok [OF here] Cons.IH [OF rest] after_sets_after_sets)
qed

lemma set_locations_fail:
  "i < length keys \<Longrightarrow>
   (\<forall>j < i. redis_fault e (length (redis_cmds s) + j) = None) \<Longrightarrow>
   redis_fault e (length (redis_cmds s) + i) = Some msg \<Longrightarrow>
   set_locations e s keys v
   = (after_sets s (take (Suc i) keys) (take i keys) v, Some (Error msg))"
proof (induction keys arbitrary: s i)
  case Nil
  then show ?case by simp
next
  case (Cons key keys)
  show ?case
  proof (cases i)
    case 0
    with Cons.prems have "redis_fault e (length (redis_cmds s)) = Some msg" by simp
    then show ?thesis using 0 by (simp add: redis_Set_fail)
  next
    case (Suc i')
    with Cons.prems have here: "redis_fault e (length (redis_cmds s)) = None"
      by force
    let ?s1 = "after_sets s [key] [key] v"
    have i': "i' < length keys" using Cons.prems Suc by simp
    have before: "\<forall>j < i'. redis_fault e (length (redis_cmds ?s1) + j) = None"
    proof (intro allI impI)
      fix j assume "j < i'"
      with Cons.prems Suc have "redis_fault e (length (redis_cmds s) + Suc j) = None"
        by (metis Suc_less_eq)
      then show "redis_fault e (length (redis_cmds ?s1) + j) = None"
        by (simp add: length_cmds_after_sets)
    qed
    have at: "redis_fault e (length (redis_cmds ?s1) + i') = Some msg"
      using Cons.prems Suc by (simp add: length_cmds_after_sets)
    show ?thesis
      using Suc
      by (simp add: redis_Set_ok [OF here] Cons.IH [OF i' before at] after_sets_after_sets)
  qed
qed

lemma Handle_ok:
  assumes "\<forall>j < length (make_locations ar). redis_fault e (length (redis_cmds s) + j) = None"
  shows "Handle e s ar =
    (after_sets s (make_locations ar) (make_locations ar)
       (convertFloat32ToString e (Conditions.Temp (CurrentConditions ar))),
     Inr \<lparr>Locations = make_locations ar, Temp = Conditions.Temp (CurrentConditions ar)\<rparr>)"
  by (simp add: Handle_def Let_def set_locations_ok [OF assms])

lemma Handle_fail:
  assumes "i < length (make_locations ar)"
    and "\<forall>j < i. redis_fault e (length (redis_cmds s) + j) = None"
    and "redis_fault e (length (redis_cmds s) + i) = Some msg"
  shows "Handle e s ar =
    (after_sets s (take (Suc i) (make_locations ar)) (take i (make_locations ar))
       (convertFloat32ToString e (Conditions.Temp (CurrentConditions ar))),
     Inl (Error msg))"
  by (simp add: Handle_def Let_def set_locations_fail [OF assms])

text \<open>What the loop does whether or not a write fails.\<close>

lemma redis_Set_frame:
  "k \<noteq> key \<Longrightarrow> redis_db (fst (redis_Set e s key v ttl)) k = redis_db s k"
  by (simp add: redis_Set_def Let_def split: option.splits)

lemma redis_Set_other:
  "http_reqs (fst (redis_Set e s key v ttl)) = http_reqs s
   \<and> log_out (fst (redis_Set e s key v ttl)) = log_out s"
  by (simp add: redis_Set_def Let_def split: option.splits)

lemma redis_Set_cmds:
  "redis_cmds (fst (redis_Set e s key v ttl)) = redis_cmds s @ [SET key v ttl]"
  by (simp add: redis_Set_def Let_def split: option.splits)

lemma set_locations_frame:
  "k \<notin> set keys \<Longrightarrow> redis_db (fst (set_locations e s keys v)) k = redis_db s k"
proof (induction keys arbitrary: s)
  case Nil
  show ?case by simp
next
  case (Cons key keys)
  obtain s' res where step: "redis_Set e s key v Hour = (s', res)"
    by (cases "redis_Set e s key v Hour")
  have here: "redis_db s' k = redis_db s k"
    using redis_Set_frame [of k key e s v Hour] Cons.prems step by simp
  show ?case
  proof (cases res)
    case None
    then show ?thesis using Cons step here by simp
  next
    case (Some err)
    then show ?thesis using step here by simp
  qed
qed

lemma set_locations_other:
  "http_reqs (fst (set_locations e s keys v)) = http_reqs s
   \<and> log_out (fst (set_locations e s keys v)) = log_out s"
proof (induction keys arbitrary: s)
  case Nil
  show ?case by simp
next
  case (Cons key keys)
  obtain s' res where step: "redis_Set e s key v Hour = (s', res)"
    by (cases "redis_Set e s key v Hour")
  have here: "http_reqs s' = http_reqs s \<and> log_out s' = log_out s"
    using redis_Set_other [of e s key v Hour] step by simp
  show ?case
    using Cons.IH [of s'] step here by (cases res) simp_all
qed

lemma set_locations_cmds_prefix:
  "\<exists>n \<le> length keys.
     redis_cmds (fst (set_locations e s keys v))
     = redis_cmds s @ map (\<lambda>k. SET k v Hour) (take n keys)"
proof (induction keys arbitrary: s)
  case Nil
  show ?case by simp
next
  case (Cons key keys)
  obtain s' res where step: "redis_Set e s key v Hour = (s', res)"
    by (cases "redis_Set e s key v Hour")
  have here: "redis_cmds s' = redis_cmds s @ [SET key v Hour]"
    using redis_Set_cmds [of e s key v Hour] step by simp
  show ?case
  proof (cases res)
    case (Some err)
    have "redis_cmds (fst (set_locations e s (key # keys) v))
          = redis_cmds s @ map (\<lambda>k. SET k v Hour) (take (Suc 0) (key # keys))"
      using step Some here by simp
    moreover have "Suc 0 \<le> length (key # keys)" by simp
    ultimately show ?thesis by blast
  next
    case None
    from Cons.IH [of s'] obtain n where n: "n \<le> length keys"
      and rest: "redis_cmds (fst (set_locations e s' keys v))
                 = redis_cmds s' @ map (\<lambda>k. SET k v Hour) (take n keys)"
      by blast
    have "redis_cmds (fst (set_locations e s (key # keys) v))
          = redis_cmds s @ map (\<lambda>k. SET k v Hour) (take (Suc n) (key # keys))"
      using step None here rest by simp
    moreover have "Suc n \<le> length (key # keys)" using n by simp
    ultimately show ?thesis by blast
  qed
qed

lemma fst_Handle:
  "fst (Handle e s ar)
   = fst (set_locations e s (make_locations ar)
            (convertFloat32ToString e (Conditions.Temp (CurrentConditions ar))))"
  by (simp add: Handle_def Let_def split: prod.splits option.splits)

lemma Handle_http_reqs: "http_reqs (fst (Handle e s ar)) = http_reqs s"
  by (simp only: fst_Handle set_locations_other)

section \<open>The handler\<close>

lemma redis_Get_miss:
  "redis_fault e (length (redis_cmds s)) = None \<Longrightarrow> redis_db s key = None \<Longrightarrow>
   redis_Get e s key = (s\<lparr>redis_cmds := redis_cmds s @ [GET key]\<rparr>, Inl redis_Nil)"
  by (simp add: redis_Get_def Let_def)

lemma redis_Get_hit:
  "redis_fault e (length (redis_cmds s)) = None \<Longrightarrow> redis_db s key = Some ent \<Longrightarrow>
   redis_Get e s key = (s\<lparr>redis_cmds := redis_cmds s @ [GET key]\<rparr>, Inr (val ent))"
  by (simp add: redis_Get_def Let_def)

lemma callWeatherAPI_ok:
  "http_Get e (api_url e location) = Inr resp \<Longrightarrow> Body resp = Inr body \<Longrightarrow>
   json_Unmarshal e body zero_APIResponse = (ar, None) \<Longrightarrow>
   callWeatherAPI e s location
   = (s\<lparr>http_reqs := http_reqs s @ [api_url e location]\<rparr>, Inr ar)"
  by (simp add: callWeatherAPI_def Let_def)

lemma handler_reaches_writes:
  assumes "Values_Get (Query r) ''location'' = location" "location \<noteq> []"
    and "redis_fault e (length (redis_cmds s)) = None" "redis_db s location = None"
    and "http_Get e (api_url e location) = Inr resp" "Body resp = Inr body"
    and "json_Unmarshal e body zero_APIResponse = (ar, None)"
  shows "weatherHandler e s w r =
     (case Handle e (at_writes e s location) ar of
        (s3, Inl err) \<Rightarrow> fail_with s3 w err
      | (s3, Inr weather) \<Rightarrow>
          (s3, Write (WriteHeader w StatusOK)
                 (convertFloat32ToString e (Weather.Temp weather))))"
proof -
  let ?s1 = "s\<lparr>redis_cmds := redis_cmds s @ [GET location]\<rparr>"
  have g: "redis_Get e s location = (?s1, Inl redis_Nil)"
    using assms(3,4) by (rule redis_Get_miss)
  have c: "callWeatherAPI e ?s1 location = (at_writes e s location, Inr ar)"
    using callWeatherAPI_ok [OF assms(5,6,7), of ?s1] by (simp add: at_writes_def)
  show ?thesis
    using assms(1,2) by (simp add: weatherHandler_def g c)
qed

lemma handler_state_after_reply:
  assumes "Values_Get (Query r) ''location'' = location" "location \<noteq> []"
    and "redis_fault e (length (redis_cmds s)) = None" "redis_db s location = None"
    and "http_Get e (api_url e location) = Inr resp" "Body resp = Inr body"
    and "json_Unmarshal e body zero_APIResponse = (ar, None)"
  shows "redis_db (fst (weatherHandler e s w r))
           = redis_db (fst (Handle e (at_writes e s location) ar))"
    and "redis_cmds (fst (weatherHandler e s w r))
           = redis_cmds (fst (Handle e (at_writes e s location) ar))"
    and "http_reqs (fst (weatherHandler e s w r))
           = http_reqs (fst (Handle e (at_writes e s location) ar))"
  unfolding handler_reaches_writes [OF assms]
  by (simp_all add: fail_with_def log_Print_def split: prod.splits sum.splits)







lemma Hour_ns: "Hour = 3600 * 1000000000"
  by (simp add: Hour_def Minute_def Second_def)

section \<open>What the decoder leaves untouched\<close>




















section \<open>The claims\<close>



text \<open>
  C2. A lookup whose key is in the store, the get succeeding: the answer is 200 with
  exactly the stored string; no request goes to the provider; the only command sent to
  the cache is the get, so nothing is written and no expiration is refreshed: the store
  is the same map, expirations included.
\<close>

theorem cache_hit_short_circuits:
  assumes loc: "Values_Get (Query r) ''location'' = location" "location \<noteq> []"
    and hit: "redis_fault e (length (redis_cmds s)) = None" "redis_db s location = Some ent"
  shows "snd (weatherHandler e s w r) = Write (WriteHeader w StatusOK) (val ent)
    \<and> http_reqs (fst (weatherHandler e s w r)) = http_reqs s
    \<and> redis_cmds (fst (weatherHandler e s w r)) = redis_cmds s @ [GET location]
    \<and> redis_db (fst (weatherHandler e s w r)) = redis_db s"
  using loc by (simp add: weatherHandler_def redis_Get_hit [OF hit])

theorem cache_hit_short_circuits_witness:
  "snd (weatherHandler (sample_env (Inl (Error ''no route to host'')) (\<lambda>n. None))
          (empty_world\<lparr>redis_db := [''London'' \<mapsto> \<lparr>val = ''7.5'', expiration = Hour\<rparr>]\<rparr>)
          new_writer (request_for ''London''))
     = \<lparr>status = Some 200, written = ''7.5''\<rparr>
   \<and> http_reqs (fst (weatherHandler (sample_env (Inl (Error ''no route to host'')) (\<lambda>n. None))
          (empty_world\<lparr>redis_db := [''London'' \<mapsto> \<lparr>val = ''7.5'', expiration = Hour\<rparr>]\<rparr>)
          new_writer (request_for ''London''))) = []
   \<and> redis_cmds (fst (weatherHandler (sample_env (Inl (Error ''no route to host'')) (\<lambda>n. None))
          (empty_world\<lparr>redis_db := [''London'' \<mapsto> \<lparr>val = ''7.5'', expiration = Hour\<rparr>]\<rparr>)
          new_writer (request_for ''London''))) = [GET ''London'']"
proof -
  let ?e = "sample_env (Inl (Error ''no route to host'')) (\<lambda>n. None)"
  let ?s = "empty_world\<lparr>redis_db := [''London'' \<mapsto> \<lparr>val = ''7.5'', expiration = Hour\<rparr>]\<rparr>"
  have "snd (weatherHandler ?e ?s new_writer (request_for ''London''))
          = Write (WriteHeader new_writer StatusOK) (val \<lparr>val = ''7.5'', expiration = Hour\<rparr>)
    \<and> http_reqs (fst (weatherHandler ?e ?s new_writer (request_for ''London''))) = http_reqs ?s
    \<and> redis_cmds (fst (weatherHandler ?e ?s new_writer (request_for ''London'')))
        = redis_cmds ?s @ [GET ''London'']
    \<and> redis_db (fst (weatherHandler ?e ?s new_writer (request_for ''London''))) = redis_db ?s"
    by (rule cache_hit_short_circuits) (simp_all add: sample_defs)
  then show ?thesis
    by (simp add: sample_defs)
qed

text \<open>
  C3. The slice of locations built by index is exactly address, resolved address, then
  the stations as received: nothing is sorted or dropped, so its length is 2 plus the
  number of stations. The sets sent by \<open>Handle\<close> are a prefix of one set per alias in
  that order, and all of them when no write fails; then every alias, repeated or not,
  holds the formatted temperature with the expiration of one hour.
\<close>

theorem alias_sequence_in_order:
  "make_locations r = Address r # ResolvedAddress r # Stations (CurrentConditions r)
   \<and> length (make_locations r) = 2 + length (Stations (CurrentConditions r))
   \<and> (\<exists>n \<le> length (make_locations r).
        redis_cmds (fst (Handle e s r))
        = redis_cmds s @
          map (\<lambda>k. SET k (convertFloat32ToString e (Conditions.Temp (CurrentConditions r))) Hour)
            (take n (Address r # ResolvedAddress r # Stations (CurrentConditions r))))
   \<and> ((\<forall>j < length (make_locations r). redis_fault e (length (redis_cmds s) + j) = None) \<longrightarrow>
        snd (Handle e s r)
          = Inr \<lparr>Locations = Address r # ResolvedAddress r # Stations (CurrentConditions r),
                 Temp = Conditions.Temp (CurrentConditions r)\<rparr>
        \<and> redis_cmds (fst (Handle e s r))
          = redis_cmds s @
            map (\<lambda>k. SET k (convertFloat32ToString e (Conditions.Temp (CurrentConditions r))) Hour)
              (Address r # ResolvedAddress r # Stations (CurrentConditions r))
        \<and> (\<forall>k \<in> set (Address r # ResolvedAddress r # Stations (CurrentConditions r)).
             redis_db (fst (Handle e s r)) k
             = Some \<lparr>val = convertFloat32ToString e (Conditions.Temp (CurrentConditions r)),
                     expiration = Hour\<rparr>))"
proof -
  let ?aliases = "Address r # ResolvedAddress r # Stations (CurrentConditions r)"
  let ?v = "convertFloat32ToString e (Conditions.Temp (CurrentConditions r))"
  have eq: "make_locations r = ?aliases"
    by (rule make_locations_eq)
  have len: "length (make_locations r) = 2 + length (Stations (CurrentConditions r))"
    by (simp add: eq)
  have prefix: "\<exists>n \<le> length (make_locations r).
        redis_cmds (fst (Handle e s r))
        = redis_cmds s @ map (\<lambda>k. SET k ?v Hour) (take n ?aliases)"
    using set_locations_cmds_prefix [of "make_locations r" e s ?v]
    by (simp only: fst_Handle eq)
  have all: "snd (Handle e s r)
          = Inr \<lparr>Locations = ?aliases, Temp = Conditions.Temp (CurrentConditions r)\<rparr>
        \<and> redis_cmds (fst (Handle e s r)) = redis_cmds s @ map (\<lambda>k. SET k ?v Hour) ?aliases
        \<and> (\<forall>k \<in> set ?aliases.
             redis_db (fst (Handle e s r)) k = Some \<lparr>val = ?v, expiration = Hour\<rparr>)"
    if ok: "\<forall>j < length (make_locations r). redis_fault e (length (redis_cmds s) + j) = None"
    unfolding Handle_ok [OF ok]
    by (simp add: eq after_sets_def cached_def)
  from eq len prefix all show ?thesis
    by blast
qed

theorem alias_sequence_in_order_witness:
  "make_locations
     \<lparr>Address = ''London'', ResolvedAddress = ''London'',
      CurrentConditions = \<lparr>Conditions.Temp = 0x40F00000, Stations = [''EGLC'', ''London'']\<rparr>\<rparr>
   = [''London'', ''London'', ''EGLC'', ''London'']
   \<and> redis_cmds (fst (Handle (sample_env (replies 200 London_body) (\<lambda>n. None)) empty_world
       \<lparr>Address = ''London'', ResolvedAddress = ''London'',
        CurrentConditions = \<lparr>Conditions.Temp = 0x40F00000, Stations = [''EGLC'', ''London'']\<rparr>\<rparr>))
   = [SET ''London'' ''7.5'' 3600000000000, SET ''London'' ''7.5'' 3600000000000,
      SET ''EGLC'' ''7.5'' 3600000000000, SET ''London'' ''7.5'' 3600000000000]
   \<and> redis_db (fst (Handle (sample_env (replies 200 London_body) (\<lambda>n. None)) empty_world
       \<lparr>Address = ''London'', ResolvedAddress = ''London'',
        CurrentConditions = \<lparr>Conditions.Temp = 0x40F00000, Stations = [''EGLC'', ''London'']\<rparr>\<rparr>))
       ''London''
   = Some \<lparr>val = ''7.5'', expiration = 3600000000000\<rparr>"
proof -
  let ?e = "sample_env (replies 200 London_body) (\<lambda>n. None)"
  let ?r = "\<lparr>Address = ''London'', ResolvedAddress = ''London'',
      CurrentConditions = \<lparr>Conditions.Temp = 0x40F00000, Stations = [''EGLC'', ''London'']\<rparr>\<rparr>"
  note T = alias_sequence_in_order [of ?r ?e empty_world]
  have ok: "\<forall>j < length (make_locations ?r).
              redis_fault ?e (length (redis_cmds empty_world) + j) = None"
    by (simp add: sample_env_def)
  from T have seq: "make_locations ?r = [''London'', ''London'', ''EGLC'', ''London'']"
    by simp
  from T ok have
    "redis_cmds (fst (Handle ?e empty_world ?r))
       = redis_cmds empty_world @
         map (\<lambda>k. SET k (convertFloat32ToString ?e (Conditions.Temp (CurrentConditions ?r))) Hour)
           (Address ?r # ResolvedAddress ?r # Stations (CurrentConditions ?r))"
    and "\<forall>k \<in> set (Address ?r # ResolvedAddress ?r # Stations (CurrentConditions ?r)).
           redis_db (fst (Handle ?e empty_world ?r)) k
           = Some \<lparr>val = convertFloat32ToString ?e (Conditions.Temp (CurrentConditions ?r)),
                   expiration = Hour\<rparr>"
    by blast+
  with seq show ?thesis
    by (simp add: sample_defs)
qed

text \<open>
  C4. A lookup that missed and got a reply: every key outside the alias sequence of the
  reply keeps its entry (or stays absent), whether or not a write fails, and the sets sent
  are sets to aliases. When the queried string is not among the aliases, nothing is
  stored under it, so the same query, its get reaching the store, misses again and the
  provider is asked a second time.
\<close>

theorem writes_only_to_aliases:
  assumes loc: "Values_Get (Query r) ''location'' = location" "location \<noteq> []"
    and miss: "redis_fault e (length (redis_cmds s)) = None" "redis_db s location = None"
    and reply: "http_Get e (api_url e location) = Inr resp" "Body resp = Inr body"
      "json_Unmarshal e body zero_APIResponse = (ar, None)"
  shows "(\<forall>k. k \<notin> set (Address ar # ResolvedAddress ar # Stations (CurrentConditions ar)) \<longrightarrow>
            redis_db (fst (weatherHandler e s w r)) k = redis_db s k)
    \<and> (\<exists>n \<le> 2 + length (Stations (CurrentConditions ar)).
          redis_cmds (fst (weatherHandler e s w r))
          = redis_cmds s @ GET location #
            map (\<lambda>k. SET k (convertFloat32ToString e (Conditions.Temp (CurrentConditions ar))) Hour)
              (take n (Address ar # ResolvedAddress ar # Stations (CurrentConditions ar))))
    \<and> (location \<notin> set (Address ar # ResolvedAddress ar # Stations (CurrentConditions ar)) \<longrightarrow>
          redis_db (fst (weatherHandler e s w r)) location = None
          \<and> (redis_fault e (length (redis_cmds (fst (weatherHandler e s w r)))) = None \<longrightarrow>
               snd (redis_Get e (fst (weatherHandler e s w r)) location) = Inl redis_Nil
               \<and> http_reqs (fst (weatherHandler e (fst (weatherHandler e s w r)) w' r))
                 = http_reqs s @ [api_url e location, api_url e location]))"
proof -
  let ?aliases = "Address ar # ResolvedAddress ar # Stations (CurrentConditions ar)"
  let ?v = "convertFloat32ToString e (Conditions.Temp (CurrentConditions ar))"
  let ?s' = "fst (weatherHandler e s w r)"
  note after = handler_state_after_reply [OF loc miss reply, of w]
  have frame: "redis_db ?s' k = redis_db s k" if "k \<notin> set ?aliases" for k
    using set_locations_frame [of k "make_locations ar" e "at_writes e s location" ?v] that
    by (simp add: after(1) fst_Handle make_locations_eq at_writes_def)
  have cmds: "\<exists>n \<le> 2 + length (Stations (CurrentConditions ar)).
          redis_cmds ?s' = redis_cmds s @ GET location # map (\<lambda>k. SET k ?v Hour) (take n ?aliases)"
    using set_locations_cmds_prefix [of "make_locations ar" e "at_writes e s location" ?v]
    by (simp add: after(2) fst_Handle make_locations_eq at_writes_def)
  have reqs: "http_reqs ?s' = http_reqs s @ [api_url e location]"
    by (simp add: after(3) Handle_http_reqs at_writes_def)
  have again: "redis_db ?s' location = None
     \<and> (redis_fault e (length (redis_cmds ?s')) = None \<longrightarrow>
          snd (redis_Get e ?s' location) = Inl redis_Nil
          \<and> http_reqs (fst (weatherHandler e ?s' w' r))
            = http_reqs s @ [api_url e location, api_url e location])"
    if out: "location \<notin> set ?aliases"
  proof -
    have none: "redis_db ?s' location = None"
      using frame [OF out] miss(2) by simp
    have "snd (redis_Get e ?s' location) = Inl redis_Nil
          \<and> http_reqs (fst (weatherHandler e ?s' w' r))
            = http_reqs s @ [api_url e location, api_url e location]"
      if ok: "redis_fault e (length (redis_cmds ?s')) = None"
    proof -
      note after' = handler_state_after_reply [OF loc ok none reply, of w']
      show ?thesis
        by (simp add: redis_Get_miss [OF ok none] after'(3) Handle_http_reqs at_writes_def reqs)
    qed
    with none show ?thesis by blast
  qed
  from frame cmds again show ?thesis
    by blast
qed

theorem writes_only_to_aliases_witness:
  "redis_db (fst (weatherHandler (sample_env (replies 200 London_body) (\<lambda>n. None)) empty_world
       new_writer (request_for ''london''))) ''london'' = None
   \<and> redis_db (fst (weatherHandler (sample_env (replies 200 London_body) (\<lambda>n. None)) empty_world
       new_writer (request_for ''london''))) ''Paris'' = None
   \<and> snd (redis_Get (sample_env (replies 200 London_body) (\<lambda>n. None))
       (fst (weatherHandler (sample_env (replies 200 London_body) (\<lambda>n. None)) empty_world
          new_writer (request_for ''london''))) ''london'') = Inl redis_Nil
   \<and> length (http_reqs (fst (weatherHandler (sample_env (replies 200 London_body) (\<lambda>n. None))
       (fst (weatherHandler (sample_env (replies 200 London_body) (\<lambda>n. None)) empty_world
          new_writer (request_for ''london'')))
       new_writer (request_for ''london'')))) = 2"
proof -
  let ?e = "sample_env (replies 200 London_body) (\<lambda>n. None)"
  let ?r = "request_for ''london''"
  let ?s' = "fst (weatherHandler ?e empty_world new_writer ?r)"
  let ?aliases = "Address London_reply # ResolvedAddress London_reply
                    # Stations (CurrentConditions London_reply)"
  let ?v = "convertFloat32ToString ?e (Conditions.Temp (CurrentConditions London_reply))"
  have T: "(\<forall>k. k \<notin> set ?aliases \<longrightarrow> redis_db ?s' k = redis_db empty_world k)
    \<and> (\<exists>n \<le> 2 + length (Stations (CurrentConditions London_reply)).
          redis_cmds ?s'
          = redis_cmds empty_world @ GET ''london'' # map (\<lambda>k. SET k ?v Hour) (take n ?aliases))
    \<and> (''london'' \<notin> set ?aliases \<longrightarrow>
          redis_db ?s' ''london'' = None
          \<and> (redis_fault ?e (length (redis_cmds ?s')) = None \<longrightarrow>
               snd (redis_Get ?e ?s' ''london'') = Inl redis_Nil
               \<and> http_reqs (fst (weatherHandler ?e ?s' new_writer ?r))
                 = http_reqs empty_world @ [api_url ?e ''london'', api_url ?e ''london'']))"
    by (rule writes_only_to_aliases
          [where resp = "\<lparr>StatusCode = 200, Body = Inr London_body\<rparr>"
             and body = London_body])
       (simp_all add: sample_defs)
  have al: "?aliases = [''London'', ''London, England, United Kingdom'', ''EGLC'', ''EGLL'']"
    by (simp add: London_reply_def)
  have out: "''london'' \<notin> set ?aliases" "''Paris'' \<notin> set ?aliases"
    unfolding al by simp_all
  have nofault: "redis_fault ?e (length (redis_cmds ?s')) = None"
    by (simp add: sample_env_def)
  have e: "redis_db empty_world = Map.empty" "http_reqs empty_world = []"
    by (simp_all add: empty_world_def)
  from T out(1) have 1: "redis_db ?s' ''london'' = None"
    by blast
  from T out(2) have 2: "redis_db ?s' ''Paris'' = None"
    unfolding e by blast
  from T out(1) nofault have 3: "snd (redis_Get ?e ?s' ''london'') = Inl redis_Nil"
    by blast
  from T out(1) nofault
  have "http_reqs (fst (weatherHandler ?e ?s' new_writer ?r))
          = http_reqs empty_world @ [api_url ?e ''london'', api_url ?e ''london'']"
    by blast
  then have 4: "length (http_reqs (fst (weatherHandler ?e ?s' new_writer ?r))) = 2"
    by (simp add: e)
  from 1 2 3 4 show ?thesis by blast
qed

text \<open>
  C5. A lookup that missed and got a reply, whose write number \<open>i + 1\<close> is the first to
  fail: the \<open>i\<close> writes before it stay in the store, the failing set is the last
  command sent, and the answer is 500 with the text of that error, which is logged.
\<close>

theorem partial_writes_remain:
  assumes loc: "Values_Get (Query r) ''location'' = location" "location \<noteq> []"
    and miss: "redis_fault e (length (redis_cmds s)) = None" "redis_db s location = None"
    and reply: "http_Get e (api_url e location) = Inr resp" "Body resp = Inr body"
      "json_Unmarshal e body zero_APIResponse = (ar, None)"
    and i: "i < 2 + length (Stations (CurrentConditions ar))"
    and before: "\<forall>j < i. redis_fault e (length (redis_cmds s) + 1 + j) = None"
    and fails: "redis_fault e (length (redis_cmds s) + 1 + i) = Some msg"
  shows "snd (weatherHandler e s w r) = Write (WriteHeader w StatusInternalServerError) msg
    \<and> redis_cmds (fst (weatherHandler e s w r))
        = redis_cmds s @ GET location #
          map (\<lambda>k. SET k (convertFloat32ToString e (Conditions.Temp (CurrentConditions ar))) Hour)
            (take (Suc i) (Address ar # ResolvedAddress ar # Stations (CurrentConditions ar)))
    \<and> (\<forall>k. redis_db (fst (weatherHandler e s w r)) k
          = (if k \<in> set (take i (Address ar # ResolvedAddress ar # Stations (CurrentConditions ar)))
             then Some \<lparr>val = convertFloat32ToString e (Conditions.Temp (CurrentConditions ar)),
                        expiration = Hour\<rparr>
             else redis_db s k))
    \<and> log_out (fst (weatherHandler e s w r)) = log_out s @ [msg]"
proof -
  let ?aliases = "Address ar # ResolvedAddress ar # Stations (CurrentConditions ar)"
  let ?s2 = "at_writes e s location"
  have i': "i < length (make_locations ar)"
    using i by (simp add: make_locations_eq)
  have before': "\<forall>j < i. redis_fault e (length (redis_cmds ?s2) + j) = None"
    using before by (simp add: at_writes_def)
  have fails': "redis_fault e (length (redis_cmds ?s2) + i) = Some msg"
    using fails by (simp add: at_writes_def)
  show ?thesis
    unfolding handler_reaches_writes [OF loc miss reply] Handle_fail [OF i' before' fails']
    by (simp add: make_locations_eq fail_with_def log_Print_def after_sets_def at_writes_def
          cached_def)
qed

theorem partial_writes_remain_witness:
  "snd (weatherHandler
          (sample_env (replies 200 London_body) (\<lambda>n. if n = 3 then Some ''i/o timeout'' else None))
          empty_world new_writer (request_for ''London''))
     = \<lparr>status = Some 500, written = ''i/o timeout''\<rparr>
   \<and> redis_cmds (fst (weatherHandler
          (sample_env (replies 200 London_body) (\<lambda>n. if n = 3 then Some ''i/o timeout'' else None))
          empty_world new_writer (request_for ''London'')))
     = [GET ''London'', SET ''London'' ''7.5'' 3600000000000,
        SET ''London, England, United Kingdom'' ''7.5'' 3600000000000,
        SET ''EGLC'' ''7.5'' 3600000000000]
   \<and> redis_db (fst (weatherHandler
          (sample_env (replies 200 London_body) (\<lambda>n. if n = 3 then Some ''i/o timeout'' else None))
          empty_world new_writer (request_for ''London''))) ''London''
     = Some \<lparr>val = ''7.5'', expiration = 3600000000000\<rparr>
   \<and> redis_db (fst (weatherHandler
          (sample_env (replies 200 London_body) (\<lambda>n. if n = 3 then Some ''i/o timeout'' else None))
          empty_world new_writer (request_for ''London''))) ''EGLC''
     = None"
proof -
  let ?e = "sample_env (replies 200 London_body)
              (\<lambda>n. if n = 3 then Some ''i/o timeout'' else None)"
  let ?h = "weatherHandler ?e empty_world new_writer (request_for ''London'')"
  let ?v = "convertFloat32ToString ?e (Conditions.Temp (CurrentConditions London_reply))"
  let ?aliases = "Address London_reply # ResolvedAddress London_reply
                    # Stations (CurrentConditions London_reply)"
  have T: "snd ?h = Write (WriteHeader new_writer StatusInternalServerError) ''i/o timeout''
    \<and> redis_cmds (fst ?h)
        = redis_cmds empty_world @ GET ''London'' #
          map (\<lambda>k. SET k ?v Hour) (take (Suc 2) ?aliases)
    \<and> (\<forall>k. redis_db (fst ?h) k
          = (if k \<in> set (take 2 ?aliases)
             then Some \<lparr>val = ?v, expiration = Hour\<rparr>
             else redis_db empty_world k))
    \<and> log_out (fst ?h) = log_out empty_world @ [''i/o timeout'']"
    by (rule partial_writes_remain
          [where resp = "\<lparr>StatusCode = 200, Body = Inr London_body\<rparr>"
             and body = London_body])
       (simp_all add: sample_defs)
  have v: "?v = ''7.5''"
    by (simp add: sample_defs)
  have al: "?aliases = [''London'', ''London, England, United Kingdom'', ''EGLC'', ''EGLL'']"
    by (simp add: London_reply_def)
  have w: "Write (WriteHeader new_writer StatusInternalServerError) ''i/o timeout''
           = \<lparr>status = Some 500, written = ''i/o timeout''\<rparr>"
    by (simp add: Write_def WriteHeader_def new_writer_def StatusInternalServerError_def)
  have e: "redis_cmds empty_world = [] \<and> redis_db empty_world = Map.empty"
    by (simp add: empty_world_def)
  from T have db: "redis_db (fst ?h) k
          = (if k \<in> set (take 2 ?aliases)
             then Some \<lparr>val = ?v, expiration = Hour\<rparr>
             else redis_db empty_world k)" for k
    by blast
  from T have 1: "snd ?h = \<lparr>status = Some 500, written = ''i/o timeout''\<rparr>"
    unfolding w by (rule conjunct1)
  from T have 2: "redis_cmds (fst ?h)
     = [GET ''London'', SET ''London'' ''7.5'' 3600000000000,
        SET ''London, England, United Kingdom'' ''7.5'' 3600000000000,
        SET ''EGLC'' ''7.5'' 3600000000000]"
    unfolding v al by (simp add: e Hour_ns)
  have 3: "redis_db (fst ?h) ''London'' = Some \<lparr>val = ''7.5'', expiration = 3600000000000\<rparr>"
    unfolding db v al by (simp add: Hour_ns)
  have 4: "redis_db (fst ?h) ''EGLC'' = None"
    unfolding db v al by (simp add: e)
  from 1 2 3 4 show ?thesis by blast
qed

text \<open>
  C6. On a miss, a provider call that fails to connect ends in \<open>ErrAPIConnect\<close>, and
  one whose body cannot be read or decoded ends in \<open>ErrAPIResponse\<close>; the handler
  answers 500 with the text of the one or the other, the two texts differ, and in both
  cases the store is unchanged and the only command sent to the cache is the get.
\<close>

theorem provider_failures_leave_cache:
  assumes loc: "Values_Get (Query r) ''location'' = location" "location \<noteq> []"
    and miss: "redis_fault e (length (redis_cmds s)) = None" "redis_db s location = None"
  shows "((\<exists>err. http_Get e (api_url e location) = Inl err) \<longrightarrow>
            snd (callWeatherAPI e (fst (redis_Get e s location)) location) = Inl ErrAPIConnect
          \<and> snd (weatherHandler e s w r)
              = Write (WriteHeader w StatusInternalServerError) (Error_text ErrAPIConnect))
    \<and> ((\<exists>resp. http_Get e (api_url e location) = Inr resp
          \<and> ((\<exists>err. Body resp = Inl err)
             \<or> (\<exists>body err. Body resp = Inr body
                   \<and> snd (json_Unmarshal e body zero_APIResponse) = Some err))) \<longrightarrow>
            snd (callWeatherAPI e (fst (redis_Get e s location)) location) = Inl ErrAPIResponse
          \<and> snd (weatherHandler e s w r)
              = Write (WriteHeader w StatusInternalServerError) (Error_text ErrAPIResponse))
    \<and> ((\<exists>err. snd (callWeatherAPI e (fst (redis_Get e s location)) location) = Inl err) \<longrightarrow>
            redis_db (fst (weatherHandler e s w r)) = redis_db s
          \<and> redis_cmds (fst (weatherHandler e s w r)) = redis_cmds s @ [GET location])
    \<and> Error_text ErrAPIConnect \<noteq> Error_text ErrAPIResponse"
proof -
  let ?s1 = "s\<lparr>redis_cmds := redis_cmds s @ [GET location]\<rparr>"
  have get: "redis_Get e s location = (?s1, Inl redis_Nil)"
    using miss by (rule redis_Get_miss)
  have cache: "redis_db (fst (callWeatherAPI e ?s1 location)) = redis_db s
      \<and> redis_cmds (fst (callWeatherAPI e ?s1 location)) = redis_cmds s @ [GET location]"
    by (simp add: callWeatherAPI_def Let_def log_Print_def
          split: sum.splits prod.splits option.splits)
  have handler: "snd (weatherHandler e s w r)
              = Write (WriteHeader w StatusInternalServerError) (Error_text err)
          \<and> redis_db (fst (weatherHandler e s w r)) = redis_db s
          \<and> redis_cmds (fst (weatherHandler e s w r)) = redis_cmds s @ [GET location]"
    if err: "snd (callWeatherAPI e ?s1 location) = Inl err" for err
  proof -
    obtain s2 res where c: "callWeatherAPI e ?s1 location = (s2, res)"
      by (cases "callWeatherAPI e ?s1 location")
    with err have res: "res = Inl err" by simp
    have s2: "redis_db s2 = redis_db s \<and> redis_cmds s2 = redis_cmds s @ [GET location]"
      using cache c by simp
    show ?thesis
      using loc s2
      by (simp add: weatherHandler_def get c res fail_with_def log_Print_def)
  qed
  have connect: "snd (callWeatherAPI e ?s1 location) = Inl ErrAPIConnect"
    if "\<exists>err. http_Get e (api_url e location) = Inl err"
    using that by (auto simp: callWeatherAPI_def Let_def)
  have response: "snd (callWeatherAPI e ?s1 location) = Inl ErrAPIResponse"
    if "\<exists>resp. http_Get e (api_url e location) = Inr resp
          \<and> ((\<exists>err. Body resp = Inl err)
             \<or> (\<exists>body err. Body resp = Inr body
                   \<and> snd (json_Unmarshal e body zero_APIResponse) = Some err))"
    using that by (auto simp: callWeatherAPI_def Let_def split: prod.splits)
  have texts: "Error_text ErrAPIConnect \<noteq> Error_text ErrAPIResponse"
    by simp
  show ?thesis
    unfolding get fst_conv
    using connect response handler texts by blast
qed

theorem provider_failures_leave_cache_witness:
  "snd (weatherHandler (sample_env (Inl (Error ''dial tcp: no route to host'')) (\<lambda>n. None))
       empty_world new_writer (request_for ''London''))
     = \<lparr>status = Some 500, written = ''failed to connect to the Visual Crossing API''\<rparr>
   \<and> redis_db (fst (weatherHandler
       (sample_env (Inl (Error ''dial tcp: no route to host'')) (\<lambda>n. None))
       empty_world new_writer (request_for ''London''))) = Map.empty
   \<and> snd (weatherHandler (sample_env (replies 200 ''<html>'') (\<lambda>n. None))
       empty_world new_writer (request_for ''London''))
     = \<lparr>status = Some 500,
        written = ''something happened with the response from the Visual Crossing API''\<rparr>
   \<and> redis_db (fst (weatherHandler (sample_env (replies 200 ''<html>'') (\<lambda>n. None))
       empty_world new_writer (request_for ''London''))) = Map.empty
   \<and> redis_cmds (fst (weatherHandler (sample_env (replies 200 ''<html>'') (\<lambda>n. None))
       empty_world new_writer (request_for ''London''))) = [GET ''London'']"
proof -
  let ?ec = "sample_env (Inl (Error ''dial tcp: no route to host'')) (\<lambda>n. None)"
  let ?eb = "sample_env (replies 200 ''<html>'') (\<lambda>n. None)"
  let ?r = "request_for ''London''"
  have loc: "Values_Get (Query ?r) ''location'' = ''London''" "''London'' \<noteq> []"
    by (simp_all add: Values_Get_def request_for_def)
  have missc: "redis_fault ?ec (length (redis_cmds empty_world)) = None"
    "redis_db empty_world ''London'' = None"
    by (simp_all add: sample_env_def empty_world_def)
  have missb: "redis_fault ?eb (length (redis_cmds empty_world)) = None"
    by (simp add: sample_env_def)
  note Tc = provider_failures_leave_cache [OF loc missc, of new_writer]
  note Tb = provider_failures_leave_cache [OF loc missb missc(2), of new_writer]
  have hc: "\<exists>err. http_Get ?ec (api_url ?ec ''London'') = Inl err"
    by (simp add: sample_env_def)
  have hb: "\<exists>resp. http_Get ?eb (api_url ?eb ''London'') = Inr resp
          \<and> ((\<exists>err. Body resp = Inl err)
             \<or> (\<exists>body err. Body resp = Inr body
                   \<and> snd (json_Unmarshal ?eb body zero_APIResponse) = Some err))"
    by (simp add: sample_env_def replies_def sample_Unmarshal_def London_body_def)
  have w: "Write (WriteHeader new_writer StatusInternalServerError) t
           = \<lparr>status = Some 500, written = t\<rparr>" for t
    by (simp add: Write_def WriteHeader_def new_writer_def StatusInternalServerError_def)
  have e: "redis_db empty_world = Map.empty" "redis_cmds empty_world = []"
    by (simp_all add: empty_world_def)
  from Tc hc have c1: "snd (weatherHandler ?ec empty_world new_writer ?r)
      = \<lparr>status = Some 500, written = ''failed to connect to the Visual Crossing API''\<rparr>"
    unfolding w by simp
  from Tc hc have "snd (callWeatherAPI ?ec (fst (redis_Get ?ec empty_world ''London'')) ''London'')
      = Inl ErrAPIConnect"
    by blast
  with Tc have c2: "redis_db (fst (weatherHandler ?ec empty_world new_writer ?r)) = Map.empty"
    unfolding e by simp
  from Tb hb have b1: "snd (weatherHandler ?eb empty_world new_writer ?r)
      = \<lparr>status = Some 500,
         written = ''something happened with the response from the Visual Crossing API''\<rparr>"
    unfolding w by simp
  from Tb hb have "snd (callWeatherAPI ?eb (fst (redis_Get ?eb empty_world ''London'')) ''London'')
      = Inl ErrAPIResponse"
    by blast
  with Tb have b2: "redis_db (fst (weatherHandler ?eb empty_world new_writer ?r)) = Map.empty
      \<and> redis_cmds (fst (weatherHandler ?eb empty_world new_writer ?r)) = [GET ''London'']"
    unfolding e by simp
  from c1 c2 b1 b2 show ?thesis by blast
qed

text \<open>
  C7. A lookup whose get fails with an error other than \<open>redis.Nil\<close>: the answer is 500
  with the text of that error, no request goes to the provider and the store is
  unchanged.
\<close>

theorem cache_read_error_propagates:
  assumes loc: "Values_Get (Query r) ''location'' = location" "location \<noteq> []"
    and get: "redis_Get e s location = (s1, Inl err)" "err \<noteq> redis_Nil"
  shows "snd (weatherHandler e s w r)
           = Write (WriteHeader w StatusInternalServerError) (Error_text err)
    \<and> http_reqs (fst (weatherHandler e s w r)) = http_reqs s
    \<and> redis_cmds (fst (weatherHandler e s w r)) = redis_cmds s @ [GET location]
    \<and> redis_db (fst (weatherHandler e s w r)) = redis_db s"
proof -
  have s1: "s1 = s\<lparr>redis_cmds := redis_cmds s @ [GET location]\<rparr>"
    using get(1) by (auto simp: redis_Get_def Let_def split: option.splits)
  show ?thesis
    using loc get(2) by (simp add: weatherHandler_def get(1) fail_with_def log_Print_def s1)
qed

theorem cache_read_error_propagates_witness:
  "snd (weatherHandler
          (sample_env (replies 200 London_body)
             (\<lambda>n. if n = 0 then Some ''dial tcp: connection refused'' else None))
          empty_world new_writer (request_for ''London''))
     = \<lparr>status = Some 500, written = ''dial tcp: connection refused''\<rparr>
   \<and> http_reqs (fst (weatherHandler
          (sample_env (replies 200 London_body)
             (\<lambda>n. if n = 0 then Some ''dial tcp: connection refused'' else None))
          empty_world new_writer (request_for ''London''))) = []"
proof -
  let ?e = "sample_env (replies 200 London_body)
             (\<lambda>n. if n = 0 then Some ''dial tcp: connection refused'' else None)"
  have "snd (weatherHandler ?e empty_world new_writer (request_for ''London''))
           = Write (WriteHeader new_writer StatusInternalServerError)
               (Error_text (Error ''dial tcp: connection refused''))
    \<and> http_reqs (fst (weatherHandler ?e empty_world new_writer (request_for ''London'')))
        = http_reqs empty_world
    \<and> redis_cmds (fst (weatherHandler ?e empty_world new_writer (request_for ''London'')))
        = redis_cmds empty_world @ [GET ''London'']
    \<and> redis_db (fst (weatherHandler ?e empty_world new_writer (request_for ''London'')))
        = redis_db empty_world"
    by (rule cache_read_error_propagates
          [where ?s1.0 = "empty_world\<lparr>redis_cmds := [GET ''London'']\<rparr>"])
       (simp_all add: sample_defs redis_Get_def)
  then show ?thesis
    by (simp add: sample_defs)
qed

text \<open>
  C8. A request whose \<open>location\<close> parameter is empty or absent is answered 400 with
  the fixed message, and the state is returned as it was: no command to the cache, no
  request to the provider.
\<close>

theorem empty_location_rejected:
  assumes "length (Values_Get (Query r) ''location'') = 0"
  shows "weatherHandler e s w r
         = (s, Write (WriteHeader w StatusBadRequest) ''missing location query parameter'')
    \<and> StatusBadRequest = 400"
  using assms by (simp add: weatherHandler_def StatusBadRequest_def)

theorem empty_location_rejected_witness:
  "weatherHandler (sample_env (replies 200 London_body) (\<lambda>n. None)) empty_world new_writer
     \<lparr>Query = Map.empty\<rparr>
   = (empty_world, \<lparr>status = Some 400, written = ''missing location query parameter''\<rparr>)
   \<and> weatherHandler (sample_env (replies 200 London_body) (\<lambda>n. None)) empty_world new_writer
     (request_for [])
   = (empty_world, \<lparr>status = Some 400, written = ''missing location query parameter''\<rparr>)"
proof -
  let ?e = "sample_env (replies 200 London_body) (\<lambda>n. None)"
  have absent: "length (Values_Get (Query \<lparr>Query = Map.empty\<rparr>) ''location'') = 0"
    by (simp add: Values_Get_def)
  have empty: "length (Values_Get (Query (request_for [])) ''location'') = 0"
    by (simp add: Values_Get_def request_for_def)
  have w: "Write (WriteHeader new_writer StatusBadRequest) ''missing location query parameter''
           = \<lparr>status = Some 400, written = ''missing location query parameter''\<rparr>"
    by (simp add: Write_def WriteHeader_def new_writer_def StatusBadRequest_def)
  from empty_location_rejected [OF absent, of ?e empty_world new_writer]
  have a: "weatherHandler ?e empty_world new_writer \<lparr>Query = Map.empty\<rparr>
           = (empty_world, \<lparr>status = Some 400, written = ''missing location query parameter''\<rparr>)"
    unfolding w by (rule conjunct1)
  from empty_location_rejected [OF empty, of ?e empty_world new_writer]
  have b: "weatherHandler ?e empty_world new_writer (request_for [])
           = (empty_world, \<lparr>status = Some 400, written = ''missing location query parameter''\<rparr>)"
    unfolding w by (rule conjunct1)
  from a b show ?thesis by (rule conjI)
qed




end
